theory Spec2Isabelle
  imports Complex_Main
begin

section \<open>The data warehouse of fight-club: provider client, cache and orchestration\<close>

text \<open>
  A shallow embedding of \<^verbatim>\<open>backend/src/data/warehouse.py\<close> (the classes
  \<^verbatim>\<open>AlphaVantageClient\<close> and \<^verbatim>\<open>DataWarehouse\<close>) and of the route
  \<^verbatim>\<open>refresh_data\<close> of \<^verbatim>\<open>backend/src/api/routes/data.py\<close>.

  Conventions.
  \<^item> A naive \<^verbatim>\<open>datetime\<close> is an integer: the microseconds since
    2000-01-01T00:00:00, the floor date the source itself uses, so the order of datetimes is
    the order of the integers. Datetimes with a UTC offset are not modelled.
  \<^item> A Python \<^verbatim>\<open>float\<close> is a real number. The code stores and compares floats and
    computes nothing with them; nan and the infinities are not represented.
  \<^item> Every \<^verbatim>\<open>raise\<close> is a value \<open>Inl e\<close> of a sum type, and every function that
    touches the database session or the network takes the state and returns the new one.
  \<^item> The \<^verbatim>\<open>print\<close> calls of the source write to the log only and are left out, but for
    the one that can raise (\<^verbatim>\<open>data.keys()\<close> on a body that is no JSON object).
  \<^item> The state carries two fields the program does not have, for the properties that count
    calls: the log of the requests sent to the provider and the number of range selects.
\<close>

subsection \<open>Values, exceptions and the library functions the code calls\<close>

type_synonym datetime = int

definition datetime_2000_1_1 :: datetime where
  "datetime_2000_1_1 = 0"

text \<open>
  What \<^verbatim>\<open>response.json()\<close> returns. An object is the list of the items of the dict, in
  iteration order; a number is the float it converts to.
\<close>

datatype json =
    JNull
  | JBool bool
  | JNum real
  | JStr string
  | JArr "json list"
  | JObj "(string \<times> json) list"

text \<open>
  The messages of the \<^verbatim>\<open>ValueError\<close>s the code raises, one constructor for each
  message text of the source, with the values its f-string interpolates.
\<close>

datatype message =
    Alpha_Vantage_error json           \<comment> \<open>\<^verbatim>\<open>"Alpha Vantage error: {data['Error Message']}"\<close>\<close>
  | API_rate_limit_exceeded           \<comment> \<open>\<^verbatim>\<open>"API rate limit exceeded. Please wait and try again."\<close>\<close>
  | Alpha_Vantage_information json    \<comment> \<open>\<^verbatim>\<open>"Alpha Vantage: {data['Information']}"\<close>\<close>
  | No_time_series_data "string list" \<comment> \<open>\<^verbatim>\<open>"No time series data in response. Keys: {list(data.keys())}"\<close>\<close>
  | No_data_returned string           \<comment> \<open>\<^verbatim>\<open>"No data returned from Alpha Vantage for {symbol}"\<close>\<close>
  | Invalid_isoformat string          \<comment> \<open>raised by \<^verbatim>\<open>datetime.fromisoformat\<close>\<close>
  | Could_not_convert string          \<comment> \<open>raised by \<^verbatim>\<open>float\<close> on a string\<close>
  | Other_message string

datatype error =
    ValueError message
  | KeyError string
  | TypeError
  | AttributeError
  | JSONDecodeError          \<comment> \<open>a subclass of \<^verbatim>\<open>ValueError\<close>\<close>
  | HTTPStatusError nat      \<comment> \<open>\<^verbatim>\<open>response.raise_for_status()\<close>\<close>
  | RequestError             \<comment> \<open>\<^verbatim>\<open>client.get\<close>: connection failure or timeout\<close>
  | MultipleResultsFound     \<comment> \<open>\<^verbatim>\<open>scalar_one_or_none()\<close> on more than one row\<close>
  | OtherError string

text \<open>\<^verbatim>\<open>except ValueError\<close> catches the class and its subclasses.\<close>

fun is_ValueError :: "error \<Rightarrow> bool" where
  "is_ValueError (ValueError m) = True"
| "is_ValueError JSONDecodeError = True"
| "is_ValueError e = False"

fun is_KeyError :: "error \<Rightarrow> bool" where
  "is_KeyError (KeyError k) = True"
| "is_KeyError e = False"

text \<open>What the HTTP GET of the client ends in.\<close>

datatype http_response =
    Transport_failure        \<comment> \<open>\<^verbatim>\<open>client.get\<close> raises\<close>
  | Bad_status nat           \<comment> \<open>\<^verbatim>\<open>raise_for_status\<close> raises\<close>
  | Not_JSON                 \<comment> \<open>\<^verbatim>\<open>response.json()\<close> raises\<close>
  | Body json

text \<open>
  The functions the code calls and does not define: two of the standard library, the clock,
  the provider behind the URL, and \<^verbatim>\<open>parse_date\<close> of \<^verbatim>\<open>utils/helpers.py\<close>,
  which is not among the sources. They are parameters of the model. \<open>None\<close> is the
  \<^verbatim>\<open>ValueError\<close> of the library function.
\<close>

record environment =
  fromisoformat :: "string \<Rightarrow> datetime option"
  float_of_str :: "string \<Rightarrow> real option"
  parse_date :: "string \<Rightarrow> error + datetime"
  now :: datetime
  http_get :: "string \<Rightarrow> string \<Rightarrow> http_response"

subsection \<open>Quote records\<close>

text \<open>
  Modelled from the spec: \<^verbatim>\<open>OHLCVData\<close> and \<^verbatim>\<open>OHLCVRecord\<close> are declared in
  \<^verbatim>\<open>models/data.py\<close>, which is not among the sources. The spec calls them data-class
  declarations with the fields symbol, timestamp, open, high, low, close and volume; the
  source builds them by keyword from exactly these fields and reads the fields back. They
  are records here, and building one does not fail. The field \<^verbatim>\<open>open\<close> is
  \<open>open_price\<close>, since \<open>open\<close> is a constant of the library.
\<close>

record OHLCVData =
  timestamp :: datetime
  open_price :: real
  high :: real
  low :: real
  close :: real
  volume :: real

record OHLCVRecord = OHLCVData +
  symbol :: string

text \<open>A \<^verbatim>\<open>DataFrame\<close> with the six columns the source gives it: a list of rows.\<close>

type_synonym DataFrame = "OHLCVData list"

subsection \<open>AlphaVantageClient\<close>

text \<open>\<^verbatim>\<open>values[key]\<close>: only a dict can be subscripted with a string.\<close>

fun subscript :: "json \<Rightarrow> string \<Rightarrow> error + json" where
  "subscript (JObj d) k = (case map_of d k of None \<Rightarrow> Inl (KeyError k) | Some x \<Rightarrow> Inr x)"
| "subscript v k = Inl TypeError"

text \<open>\<^verbatim>\<open>float(x)\<close> on a JSON value.\<close>

fun py_float :: "environment \<Rightarrow> json \<Rightarrow> error + real" where
  "py_float env (JStr s) =
     (case float_of_str env s of None \<Rightarrow> Inl (ValueError (Could_not_convert s)) | Some x \<Rightarrow> Inr x)"
| "py_float env (JNum x) = Inr x"
| "py_float env (JBool b) = Inr (if b then 1 else 0)"
| "py_float env v = Inl TypeError"

definition float_field :: "environment \<Rightarrow> json \<Rightarrow> string \<Rightarrow> error + real" where
  "float_field env vals k = (case subscript vals k of Inl e \<Rightarrow> Inl e | Inr x \<Rightarrow> py_float env x)"

text \<open>
  The body of the \<^verbatim>\<open>try\<close> of \<^verbatim>\<open>_parse_time_series\<close>: the keyword arguments are
  evaluated in the order written, and the first exception ends the evaluation.
\<close>

definition OHLCVData_of_entry :: "environment \<Rightarrow> string \<Rightarrow> json \<Rightarrow> error + OHLCVData" where
  "OHLCVData_of_entry env timestamp_str vals =
     (case fromisoformat env timestamp_str of
        None \<Rightarrow> Inl (ValueError (Invalid_isoformat timestamp_str))
      | Some t \<Rightarrow>
     (case float_field env vals ''1. open'' of Inl e \<Rightarrow> Inl e | Inr opn \<Rightarrow>
     (case float_field env vals ''2. high'' of Inl e \<Rightarrow> Inl e | Inr hi \<Rightarrow>
     (case float_field env vals ''3. low'' of Inl e \<Rightarrow> Inl e | Inr lo \<Rightarrow>
     (case float_field env vals ''4. close'' of Inl e \<Rightarrow> Inl e | Inr cl \<Rightarrow>
     (case float_field env vals ''5. volume'' of Inl e \<Rightarrow> Inl e | Inr vol \<Rightarrow>
        Inr \<lparr>timestamp = t, open_price = opn, high = hi, low = lo, close = cl,
             volume = vol\<rparr>))))))"

text \<open>
  The \<^verbatim>\<open>for\<close> loop of \<^verbatim>\<open>_parse_time_series\<close> over \<^verbatim>\<open>time_series.items()\<close>, with
  the list \<^verbatim>\<open>ohlcv_data\<close> as accumulator. \<^verbatim>\<open>except (KeyError, ValueError)\<close> skips the
  entry; any other exception leaves the loop and the function.
\<close>

fun parse_items :: "environment \<Rightarrow> (string \<times> json) list \<Rightarrow> OHLCVData list \<Rightarrow> error + OHLCVData list" where
  "parse_items env [] ohlcv_data = Inr ohlcv_data"
| "parse_items env ((timestamp_str, vals) # rest) ohlcv_data =
     (case OHLCVData_of_entry env timestamp_str vals of
        Inr ohlcv \<Rightarrow> parse_items env rest (ohlcv_data @ [ohlcv])
      | Inl e \<Rightarrow>
          if is_KeyError e \<or> is_ValueError e then parse_items env rest ohlcv_data
          else Inl e)"

text \<open>
  \<^verbatim>\<open>_parse_time_series\<close>. \<^verbatim>\<open>sorted\<close> is stable, as \<open>sort_key\<close> is. A value that is
  not a dict has no \<^verbatim>\<open>items\<close>.
\<close>

fun parse_time_series :: "environment \<Rightarrow> json \<Rightarrow> error + OHLCVData list" where
  "parse_time_series env (JObj items) =
     (case parse_items env items [] of
        Inl e \<Rightarrow> Inl e
      | Inr ohlcv_data \<Rightarrow> Inr (sort_key timestamp ohlcv_data))"
| "parse_time_series env v = Inl AttributeError"

text \<open>Python's truth value of a JSON value (\<^verbatim>\<open>if not time_series\<close>).\<close>

fun truthy :: "json \<Rightarrow> bool" where
  "truthy JNull = False"
| "truthy (JBool b) = b"
| "truthy (JNum x) = (x \<noteq> 0)"
| "truthy (JStr s) = (s \<noteq> [])"
| "truthy (JArr xs) = (xs \<noteq> [])"
| "truthy (JObj kvs) = (kvs \<noteq> [])"

definition has_key :: "(string \<times> json) list \<Rightarrow> string \<Rightarrow> bool" where
  "has_key data k = (map_of data k \<noteq> None)"

text \<open>\<^verbatim>\<open>fetch_daily\<close> from the decoded body on: lines 46 to 63.\<close>

fun daily_of_body :: "environment \<Rightarrow> json \<Rightarrow> error + OHLCVData list" where
  "daily_of_body env (JObj data) =
     (if has_key data ''Error Message''
        then Inl (ValueError (Alpha_Vantage_error (the (map_of data ''Error Message''))))
      else if has_key data ''Note''
        then Inl (ValueError API_rate_limit_exceeded)
      else if has_key data ''Information''
        then Inl (ValueError (Alpha_Vantage_information (the (map_of data ''Information''))))
      else
        let time_series =
              (case map_of data ''Time Series (Daily)'' of None \<Rightarrow> JObj [] | Some v \<Rightarrow> v)
        in if \<not> truthy time_series
             then Inl (ValueError (No_time_series_data (map fst data)))
           else parse_time_series env time_series)"
| "daily_of_body env v = Inl AttributeError"

subsection \<open>The database session and the log of provider requests\<close>

text \<open>
  The state the warehouse works on. \<open>rows\<close> is the table \<^verbatim>\<open>OHLCVRecord\<close> maps to, as
  the session's transaction sees it, in insertion order; \<open>pending\<close> is \<^verbatim>\<open>session.new\<close>,
  the objects added and not yet flushed; \<open>autoflush\<close> is the session's setting of that name
  (the session is made in \<^verbatim>\<open>utils/helpers.py\<close>, which is not among the sources; the
  library's default is on). The table has no uniqueness constraint here: the code makes its
  own check. \<open>requests\<close> logs every GET the client sends (symbol and output size), and
  \<open>range_queries\<close> counts the range selects.
\<close>

record state =
  rows :: "OHLCVRecord list"
  pending :: "OHLCVRecord list"
  autoflush :: bool
  requests :: "(string \<times> string) list"
  range_queries :: nat

definition flush :: "state \<Rightarrow> state" where
  "flush s = s\<lparr>rows := rows s @ pending s, pending := []\<rparr>"

text \<open>\<^verbatim>\<open>session.execute\<close> of a select flushes first when autoflush is on.\<close>

definition before_select :: "state \<Rightarrow> state" where
  "before_select s = (if autoflush s then flush s else s)"

definition commit :: "state \<Rightarrow> state" where
  "commit s = flush s"

text \<open>
  \<^verbatim>\<open>fetch_daily\<close>: one GET, logged; then the status check, the decoding and
  \<open>daily_of_body\<close>.
\<close>

definition fetch_daily :: "environment \<Rightarrow> string \<Rightarrow> string \<Rightarrow> state \<Rightarrow> (error + OHLCVData list) \<times> state" where
  "fetch_daily env symb outputsize s =
     (let s' = s\<lparr>requests := requests s @ [(symb, outputsize)]\<rparr> in
      case http_get env symb outputsize of
        Transport_failure \<Rightarrow> (Inl RequestError, s')
      | Bad_status code \<Rightarrow> (Inl (HTTPStatusError code), s')
      | Not_JSON \<Rightarrow> (Inl JSONDecodeError, s')
      | Body data \<Rightarrow> (daily_of_body env data, s'))"

subsection \<open>DataWarehouse\<close>

text \<open>
  \<^verbatim>\<open>_get_cached_data\<close>: the range select, ordered by timestamp. Rows with one timestamp
  keep their table order (SQL leaves their order open; a table without duplicate keys has
  no such rows for one symbol).
\<close>

definition in_range :: "datetime \<Rightarrow> datetime \<Rightarrow> datetime \<Rightarrow> bool" where
  "in_range start_dt end_dt t = (start_dt \<le> t \<and> t \<le> end_dt)"

definition get_cached_data :: "string \<Rightarrow> datetime \<Rightarrow> datetime \<Rightarrow> state \<Rightarrow> OHLCVRecord list \<times> state" where
  "get_cached_data symb start_dt end_dt s =
     (let s' = (before_select s)\<lparr>range_queries := Suc (range_queries s)\<rparr> in
      (sort_key timestamp
         (filter (\<lambda>r. symbol r = symb \<and> in_range start_dt end_dt (timestamp r)) (rows s')), s'))"

text \<open>The record \<^verbatim>\<open>save_ohlcv_data\<close> builds from one fetched quote.\<close>

definition OHLCVRecord_of :: "string \<Rightarrow> OHLCVData \<Rightarrow> OHLCVRecord" where
  "OHLCVRecord_of symb ohlcv =
     \<lparr>timestamp = timestamp ohlcv, open_price = open_price ohlcv, high = high ohlcv,
      low = low ohlcv, close = close ohlcv, volume = volume ohlcv, symbol = symb\<rparr>"

text \<open>
  The loop of \<^verbatim>\<open>save_ohlcv_data\<close>: a select by symbol and timestamp,
  \<^verbatim>\<open>scalar_one_or_none\<close> on its rows, and \<^verbatim>\<open>session.add\<close> when there is none.
\<close>

fun save_loop :: "string \<Rightarrow> OHLCVData list \<Rightarrow> state \<Rightarrow> (error + unit) \<times> state" where
  "save_loop symb [] s = (Inr (), s)"
| "save_loop symb (ohlcv # rest) s =
     (let s1 = before_select s in
      case filter (\<lambda>r. symbol r = symb \<and> timestamp r = timestamp ohlcv) (rows s1) of
        [] \<Rightarrow> save_loop symb rest (s1\<lparr>pending := pending s1 @ [OHLCVRecord_of symb ohlcv]\<rparr>)
      | [existing] \<Rightarrow> save_loop symb rest s1
      | existing # others \<Rightarrow> (Inl MultipleResultsFound, s1))"

definition save_ohlcv_data :: "string \<Rightarrow> OHLCVData list \<Rightarrow> state \<Rightarrow> (error + unit) \<times> state" where
  "save_ohlcv_data symb data s =
     (case save_loop symb data s of
        (Inl e, s') \<Rightarrow> (Inl e, s')
      | (Inr u, s') \<Rightarrow> (Inr (), commit s'))"

definition records_to_dataframe :: "OHLCVRecord list \<Rightarrow> DataFrame" where
  "records_to_dataframe records =
     map (\<lambda>r. \<lparr>timestamp = timestamp r, open_price = open_price r, high = high r, low = low r,
               close = close r, volume = volume r\<rparr>) records"

definition ohlcv_to_dataframe :: "OHLCVData list \<Rightarrow> DataFrame" where
  "ohlcv_to_dataframe ohlcv_list =
     map (\<lambda>x. \<lparr>timestamp = timestamp x, open_price = open_price x, high = high x, low = low x,
               close = close x, volume = volume x\<rparr>) ohlcv_list"

text \<open>\<^verbatim>\<open>parse_date(d) if d else default\<close>: \<^verbatim>\<open>None\<close> and the empty string are false.\<close>

definition date_or_default :: "environment \<Rightarrow> string option \<Rightarrow> datetime \<Rightarrow> error + datetime" where
  "date_or_default env d dflt =
     (case d of
        None \<Rightarrow> Inr dflt
      | Some str \<Rightarrow> if str = [] then Inr dflt else parse_date env str)"

text \<open>The filter by date range at the end of \<^verbatim>\<open>get_ohlcv_data\<close>, with its guard.\<close>

definition filter_range :: "datetime \<Rightarrow> datetime \<Rightarrow> DataFrame \<Rightarrow> DataFrame" where
  "filter_range start_dt end_dt df =
     (if length df > 0 then filter (\<lambda>row. start_dt \<le> timestamp row \<and> timestamp row \<le> end_dt) df
      else df)"

text \<open>
  \<^verbatim>\<open>get_ohlcv_data\<close>. The handler \<^verbatim>\<open>except Exception\<close> prints and raises the same
  exception again, so an error passes through as it is.
\<close>

definition get_ohlcv_data :: "environment \<Rightarrow> string \<Rightarrow> string option \<Rightarrow> string option \<Rightarrow> state \<Rightarrow> (error + DataFrame) \<times> state" where
  "get_ohlcv_data env symb start_date end_date s =
     (case date_or_default env start_date datetime_2000_1_1 of
        Inl e \<Rightarrow> (Inl e, s)
      | Inr start_dt \<Rightarrow>
     (case date_or_default env end_date (now env) of
        Inl e \<Rightarrow> (Inl e, s)
      | Inr end_dt \<Rightarrow>
     (case get_cached_data symb start_dt end_dt s of (cached_data, s1) \<Rightarrow>
        if cached_data \<noteq> [] \<and> length cached_data > 0
        then (Inr (filter_range start_dt end_dt (records_to_dataframe cached_data)), s1)
        else
          (case fetch_daily env symb ''compact'' s1 of
             (Inl e, s2) \<Rightarrow> (Inl e, s2)
           | (Inr ohlcv_data, s2) \<Rightarrow>
               if ohlcv_data = [] then (Inl (ValueError (No_data_returned symb)), s2)
               else
                 (case save_ohlcv_data symb ohlcv_data s2 of
                    (Inl e, s3) \<Rightarrow> (Inl e, s3)
                  | (Inr u, s3) \<Rightarrow>
                      (Inr (filter_range start_dt end_dt (ohlcv_to_dataframe ohlcv_data)), s3))))))"

subsection \<open>The route refresh_data\<close>

datatype HTTPException = HTTPException nat

text \<open>
  \<^verbatim>\<open>refresh_data\<close>: fetch, save, report the number of fetched records. The 404 for an
  empty fetch is raised inside the \<^verbatim>\<open>try\<close>; it is no \<^verbatim>\<open>ValueError\<close>, so the handler
  \<^verbatim>\<open>except Exception\<close> turns it into a 500, as it does every other exception.
\<close>

definition refresh_handler :: "error \<Rightarrow> HTTPException" where
  "refresh_handler e = (if is_ValueError e then HTTPException 400 else HTTPException 500)"

definition refresh_data :: "environment \<Rightarrow> string \<Rightarrow> state \<Rightarrow> (HTTPException + nat) \<times> state" where
  "refresh_data env symb s =
     (case fetch_daily env symb ''compact'' s of
        (Inl e, s1) \<Rightarrow> (Inl (refresh_handler e), s1)
      | (Inr ohlcv_data, s1) \<Rightarrow>
          if ohlcv_data = [] then (Inl (HTTPException 500), s1)
          else
            (case save_ohlcv_data symb ohlcv_data s1 of
               (Inl e, s2) \<Rightarrow> (Inl (refresh_handler e), s2)
             | (Inr u, s2) \<Rightarrow> (Inr (length ohlcv_data), s2)))"

subsection \<open>Notions the properties are stated with\<close>

text \<open>The key of a stored row, and a table in which no key occurs twice.\<close>

definition key_of :: "OHLCVRecord \<Rightarrow> string \<times> datetime" where
  "key_of r = (symbol r, timestamp r)"

definition no_duplicate_keys :: "OHLCVRecord list \<Rightarrow> bool" where
  "no_duplicate_keys rs = distinct (map key_of rs)"

text \<open>
  The records the session holds, flushed or not: what a commit makes the table. A flush
  moves records from \<open>pending\<close> to \<open>rows\<close> and leaves it as it is.
\<close>

definition stored :: "state \<Rightarrow> OHLCVRecord list" where
  "stored s = rows s @ pending s"

text \<open>
  A response that is a rate-limit indicator: \<^verbatim>\<open>fetch_daily\<close> takes the key
  \<^verbatim>\<open>"Note"\<close> for one, after the check for \<^verbatim>\<open>"Error Message"\<close>.
\<close>

fun rate_limited :: "http_response \<Rightarrow> bool" where
  "rate_limited (Body (JObj data)) = (\<not> has_key data ''Error Message'' \<and> has_key data ''Note'')"
| "rate_limited r = False"

text \<open>
  The store's \<^verbatim>\<open>upsert_many\<close> in the spec's words (section 4.2: for each record, insert
  if absent at its key, otherwise leave the existing value), on the bare table. It is what
  \<open>save_ohlcv_data\<close> is compared with.
\<close>

fun upsert_many :: "string \<Rightarrow> OHLCVData list \<Rightarrow> OHLCVRecord list \<Rightarrow> OHLCVRecord list" where
  "upsert_many symb [] table = table"
| "upsert_many symb (x # xs) table =
     upsert_many symb xs
       (if (symb, timestamp x) \<in> set (map key_of table) then table
        else table @ [OHLCVRecord_of symb x])"

text \<open>
  With autoflush off, no select of the loop sees the rows the loop has added: every fetched
  quote whose key is not in the table at the start is appended.
\<close>

definition append_absent :: "string \<Rightarrow> OHLCVData list \<Rightarrow> OHLCVRecord list \<Rightarrow> OHLCVRecord list" where
  "append_absent symb data table =
     table @ map (OHLCVRecord_of symb)
               (filter (\<lambda>x. (symb, timestamp x) \<notin> set (map key_of table)) data)"

definition saved_rows :: "bool \<Rightarrow> string \<Rightarrow> OHLCVData list \<Rightarrow> OHLCVRecord list \<Rightarrow> OHLCVRecord list" where
  "saved_rows flushing symb data table =
     (if flushing then upsert_many symb data table else append_absent symb data table)"

text \<open>
  A malformed entry of the time series, in the spec's words: a field is missing, or the
  timestamp or a field's string cannot be parsed. \<open>float_typed\<close> are the JSON values
  \<^verbatim>\<open>float\<close> takes without a \<^verbatim>\<open>TypeError\<close>; the provider sends strings.
\<close>

definition field_names :: "string list" where
  "field_names = [''1. open'', ''2. high'', ''3. low'', ''4. close'', ''5. volume'']"

fun float_typed :: "json \<Rightarrow> bool" where
  "float_typed (JStr s) = True"
| "float_typed (JNum x) = True"
| "float_typed (JBool b) = True"
| "float_typed v = False"

definition float_typed_fields :: "(string \<times> json) list \<Rightarrow> bool" where
  "float_typed_fields d =
     list_all (\<lambda>k. case map_of d k of None \<Rightarrow> True | Some v \<Rightarrow> float_typed v) field_names"

definition missing_field :: "(string \<times> json) list \<Rightarrow> bool" where
  "missing_field d = list_ex (\<lambda>k. map_of d k = None) field_names"

definition unparseable_value :: "environment \<Rightarrow> string \<Rightarrow> (string \<times> json) list \<Rightarrow> bool" where
  "unparseable_value env timestamp_str d =
     (fromisoformat env timestamp_str = None \<or>
      list_ex (\<lambda>k. case map_of d k of Some (JStr s) \<Rightarrow> float_of_str env s = None | _ \<Rightarrow> False)
        field_names)"

subsection \<open>A sample provider, for the concrete instances\<close>

text \<open>
  Finite tables stand for the library parsers on the strings the instances use, and a fixed
  body for the provider. \<open>days n\<close> is midnight, \<open>n\<close> days after 2000-01-01;
  2024-01-01 is day 8766.
\<close>

definition days :: "int \<Rightarrow> datetime" where
  "days n = n * 86400000000"

definition sample_fields :: "string \<Rightarrow> string \<Rightarrow> string \<Rightarrow> string \<Rightarrow> (string \<times> json) list" where
  "sample_fields opn hi lo cl =
     [(''1. open'', JStr opn), (''2. high'', JStr hi), (''3. low'', JStr lo),
      (''4. close'', JStr cl), (''5. volume'', JStr ''100'')]"

definition sample_entry :: "string \<Rightarrow> string \<Rightarrow> string \<Rightarrow> string \<Rightarrow> json" where
  "sample_entry opn hi lo cl = JObj (sample_fields opn hi lo cl)"

definition sample_dates :: "(string \<times> datetime) list" where
  "sample_dates =
     [(''2024-01-01'', days 8766), (''2024-01-02'', days 8767), (''2024-01-03'', days 8768),
      (''2024-01-04'', days 8769), (''2024-01-05'', days 8770), (''2024-02-01'', days 8797),
      (''2024-02-02'', days 8798)]"

definition sample_env :: "json \<Rightarrow> environment" where
  "sample_env body =
     \<lparr>fromisoformat = map_of sample_dates,
      float_of_str = map_of [(''5'', 5), (''8'', 8), (''9'', 9), (''10'', 10), (''100'', 100)],
      parse_date = (\<lambda>str. case map_of sample_dates str of
                             None \<Rightarrow> Inl (ValueError (Other_message str))
                           | Some t \<Rightarrow> Inr t),
      now = days 9000,
      http_get = (\<lambda>symb outputsize. Body body)\<rparr>"

text \<open>
  Three daily entries, newest first as the provider sends them: one well formed, one with
  high below low, one whose high is no number.
\<close>

definition sample_series :: json where
  "sample_series =
     JObj [(''2024-01-04'', sample_entry ''9'' ''10'' ''8'' ''9''),
           (''2024-01-03'', sample_entry ''10'' ''5'' ''8'' ''9''),
           (''2024-01-02'', sample_entry ''9'' ''abc'' ''8'' ''9'')]"

definition sample_body :: json where
  "sample_body = JObj [(''Meta Data'', JObj []), (''Time Series (Daily)'', sample_series)]"

text \<open>A body whose only entry is malformed, and a body that is a rate-limit note.\<close>

definition malformed_body :: json where
  "malformed_body =
     JObj [(''Time Series (Daily)'', JObj [(''2024-01-02'', sample_entry ''9'' ''abc'' ''8'' ''9'')])]"

definition note_body :: json where
  "note_body = JObj [(''Note'', JStr ''Thank you for using Alpha Vantage!'')]"

definition empty_state :: state where
  "empty_state = \<lparr>rows = [], pending = [], autoflush = True, requests = [], range_queries = 0\<rparr>"

definition quote :: "datetime \<Rightarrow> real \<Rightarrow> real \<Rightarrow> real \<Rightarrow> real \<Rightarrow> OHLCVData" where
  "quote t opn hi lo cl =
     \<lparr>timestamp = t, open_price = opn, high = hi, low = lo, close = cl, volume = 100\<rparr>"

text \<open>A session whose table holds three days of AAPL.\<close>

definition sample_state :: state where
  "sample_state =
     \<lparr>rows = map (OHLCVRecord_of ''AAPL'')
               [quote (days 8767) 9 10 8 9, quote (days 8768) 9 10 8 10, quote (days 8769) 10 10 9 9],
      pending = [], autoflush = True, requests = [], range_queries = 0\<rparr>"

section \<open>Properties of the provider client\<close>





lemma parse_items_errors:
  "parse_items env items acc = Inl e \<Longrightarrow> \<not> is_ValueError e"
  by (induction items arbitrary: acc) (auto split: sum.splits if_splits)




lemma fetch_daily_state:
  "snd (fetch_daily env symb outputsize s) = s\<lparr>requests := requests s @ [(symb, outputsize)]\<rparr>"
  by (auto simp: fetch_daily_def Let_def split: http_response.splits)

lemma fetch_daily_conv:
  "fetch_daily env symb outputsize s =
     (fst (fetch_daily env symb outputsize s0), s\<lparr>requests := requests s @ [(symb, outputsize)]\<rparr>)"
  by (auto simp: fetch_daily_def Let_def split: http_response.splits)

text \<open>
  Which entries are built. With fields of the types \<^verbatim>\<open>float\<close> takes, an entry is
  built exactly when no field is missing and every string parses. The values themselves
  are not compared with one another.
\<close>

lemma float_field_cases:
  assumes "float_typed_fields d" "k \<in> set field_names"
  shows "(\<exists>x. float_field env (JObj d) k = Inr x \<and> map_of d k \<noteq> None \<and>
            (\<forall>s. map_of d k = Some (JStr s) \<longrightarrow> float_of_str env s \<noteq> None)) \<or>
         ((\<exists>e. float_field env (JObj d) k = Inl e \<and> (is_KeyError e \<or> is_ValueError e)))"
proof -
  from assms have ft: "case map_of d k of None \<Rightarrow> True | Some v \<Rightarrow> float_typed v"
    by (simp add: float_typed_fields_def list_all_iff)
  show ?thesis
  proof (cases "map_of d k")
    case None then show ?thesis by (simp add: float_field_def)
  next
    case (Some v)
    with ft have "float_typed v" by simp
    with Some show ?thesis
      by (cases v) (auto simp: float_field_def split: option.splits)
  qed
qed

lemma entry_result:
  assumes "fromisoformat env ts = Some t"
  shows "(\<exists>e k. k \<in> set field_names \<and> float_field env v k = Inl e \<and> OHLCVData_of_entry env ts v = Inl e) \<or>
         ((\<exists>x. OHLCVData_of_entry env ts v = Inr x) \<and> (\<forall>k\<in>set field_names. \<exists>y. float_field env v k = Inr y))"
  using assms by (auto simp: OHLCVData_of_entry_def field_names_def split: sum.splits)

lemma malformed_entry_skipped:
  assumes ft: "float_typed_fields d" and bad: "missing_field d \<or> unparseable_value env ts d"
  shows "\<exists>e. OHLCVData_of_entry env ts (JObj d) = Inl e \<and> (is_KeyError e \<or> is_ValueError e)"
proof (cases "fromisoformat env ts")
  case None then show ?thesis by (simp add: OHLCVData_of_entry_def)
next
  case (Some t)
  from entry_result[OF Some, of "JObj d"] show ?thesis
  proof
    assume "\<exists>e k. k \<in> set field_names \<and> float_field env (JObj d) k = Inl e \<and> OHLCVData_of_entry env ts (JObj d) = Inl e"
    then obtain e k where k: "k \<in> set field_names" and e: "float_field env (JObj d) k = Inl e"
      and r: "OHLCVData_of_entry env ts (JObj d) = Inl e" by blast
    from float_field_cases[OF ft k, of env] e have "is_KeyError e \<or> is_ValueError e" by auto
    with r show ?thesis by blast
  next
    assume a: "(\<exists>x. OHLCVData_of_entry env ts (JObj d) = Inr x) \<and> (\<forall>k\<in>set field_names. \<exists>y. float_field env (JObj d) k = Inr y)"
    have ok: "map_of d k \<noteq> None \<and> (\<forall>s. map_of d k = Some (JStr s) \<longrightarrow> float_of_str env s \<noteq> None)"
      if "k \<in> set field_names" for k
      using float_field_cases[OF ft that, of env] a that by auto
    have "\<not> missing_field d" using ok by (auto simp: missing_field_def list_ex_iff)
    moreover have "\<not> unparseable_value env ts d" using ok Some
      by (auto simp: unparseable_value_def list_ex_iff split: option.splits json.splits)
    ultimately show ?thesis using bad by simp
  qed
qed

lemma well_formed_entry_built:
  assumes ft: "float_typed_fields d" and ok: "\<not> missing_field d" "\<not> unparseable_value env ts d"
  shows "\<exists>x. OHLCVData_of_entry env ts (JObj d) = Inr x"
proof -
  from ok(2) obtain t where t: "fromisoformat env ts = Some t"
    by (auto simp: unparseable_value_def)
  have f: "\<exists>y. float_field env (JObj d) k = Inr y" if k: "k \<in> set field_names" for k
  proof -
    from ok(1) k obtain v where v: "map_of d k = Some v"
      by (auto simp: missing_field_def list_ex_iff)
    from ft k v have tv: "float_typed v"
      by (auto simp: float_typed_fields_def list_all_iff)
    from ok(2) k v have "\<And>s. v = JStr s \<Longrightarrow> float_of_str env s \<noteq> None"
      by (auto simp: unparseable_value_def list_ex_iff)
    with tv v show ?thesis
      by (cases v) (auto simp: float_field_def)
  qed
  from entry_result[OF t, of "JObj d"] f show ?thesis by fastforce
qed

lemma entry_built_iff:
  assumes "float_typed_fields d"
  shows "(\<exists>x. OHLCVData_of_entry env ts (JObj d) = Inr x) =
         (\<not> missing_field d \<and> \<not> unparseable_value env ts d)"
  using malformed_entry_skipped[OF assms, of env ts] well_formed_entry_built[OF assms, of env ts]
  by auto

text \<open>
  The handler catches \<^verbatim>\<open>KeyError\<close> and \<^verbatim>\<open>ValueError\<close> only: a \<^verbatim>\<open>null\<close>
  where a number is expected raises \<^verbatim>\<open>TypeError\<close>, which ends the parse.
\<close>

lemma null_field_ends_the_parse:
  assumes "fromisoformat env ts = Some t" and "map_of d ''1. open'' = Some JNull"
  shows "parse_time_series env (JObj ((ts, JObj d) # post)) = Inl TypeError"
  using assms by (simp add: OHLCVData_of_entry_def float_field_def)

text \<open>
  The rate-limit error comes from the key \<^verbatim>\<open>"Note"\<close> and from nowhere else.
\<close>

lemma daily_of_body_rate_limit:
  "(daily_of_body env body = Inl (ValueError API_rate_limit_exceeded)) = rate_limited (Body body)"
proof (cases body)
  case (JObj data)
  have pts: "parse_time_series env v \<noteq> Inl (ValueError API_rate_limit_exceeded)" for v
  proof (cases v)
    case (JObj items)
    then show ?thesis using parse_items_errors[of env items "[]"]
      by (auto split: sum.splits)
  qed simp_all
  show ?thesis using JObj pts by (simp add: Let_def)
qed simp_all

lemma fetch_daily_rate_limit:
  "(fst (fetch_daily env symb outputsize s) = Inl (ValueError API_rate_limit_exceeded)) =
     rate_limited (http_get env symb outputsize)"
  by (cases "http_get env symb outputsize")
     (simp_all add: fetch_daily_def Let_def daily_of_body_rate_limit)

section \<open>Properties of the save\<close>



lemma key_filter_conv:
  "filter (\<lambda>r. symbol r = symb \<and> timestamp r = t) table = filter (\<lambda>r. key_of r = (symb, t)) table"
  by (simp add: key_of_def)

lemma key_filter_empty:
  "(symb, t) \<notin> set (map key_of table) \<Longrightarrow> filter (\<lambda>r. symbol r = symb \<and> timestamp r = t) table = []"
  by (fastforce simp: key_filter_conv filter_empty_conv image_iff)

lemma key_filter_single:
  assumes "no_duplicate_keys table" "(symb, t) \<in> set (map key_of table)"
  shows "\<exists>r. filter (\<lambda>r. symbol r = symb \<and> timestamp r = t) table = [r]"
  using assms unfolding key_filter_conv no_duplicate_keys_def
proof (induction table)
  case Nil then show ?case by simp
next
  case (Cons a table)
  show ?case
  proof (cases "key_of a = (symb, t)")
    case True
    with Cons.prems have "(symb, t) \<notin> set (map key_of table)" by auto
    then have "filter (\<lambda>r. key_of r = (symb, t)) table = []"
      by (fastforce simp: filter_empty_conv image_iff)
    with True show ?thesis by simp
  next
    case False
    with Cons show ?thesis by auto
  qed
qed

lemma OHLCVRecord_of_key [simp]: "key_of (OHLCVRecord_of symb x) = (symb, timestamp x)"
  by (simp add: key_of_def OHLCVRecord_of_def)


lemma save_loop_errors:
  "fst (save_loop symb data s) = Inl e \<Longrightarrow> e = MultipleResultsFound"
  by (induction data arbitrary: s) (auto simp: Let_def split: list.splits)

lemma save_ohlcv_data_errors:
  "fst (save_ohlcv_data symb data s) = Inl e \<Longrightarrow> e = MultipleResultsFound"
  using save_loop_errors[of symb data s e]
  by (cases "save_loop symb data s") (auto simp: save_ohlcv_data_def split: sum.splits)


text \<open>
With autoflush on, every select of the loop sees the rows added before it.
\<close>

lemma save_loop_flushing:
  assumes "autoflush s" "no_duplicate_keys (rows s @ pending s)"
  shows "fst (save_loop symb data s) = Inr () \<and>
         flush (snd (save_loop symb data s)) =
           s\<lparr>rows := upsert_many symb data (rows s @ pending s), pending := []\<rparr>"
  using assms
proof (induction data arbitrary: s)
  case Nil then show ?case by (simp add: flush_def)
next
  case (Cons x data)
  let ?s1 = "before_select s"
  let ?R = "rows s @ pending s"
  have s1: "?s1 = s\<lparr>rows := ?R, pending := []\<rparr>"
    using Cons.prems by (simp add: before_select_def flush_def)
  show ?case
  proof (cases "(symb, timestamp x) \<in> set (map key_of ?R)")
    case True
    from key_filter_single[OF Cons.prems(2) True] obtain r where
      r: "filter (\<lambda>r. symbol r = symb \<and> timestamp r = timestamp x) ?R = [r]" by blast
    have "autoflush ?s1" "no_duplicate_keys (rows ?s1 @ pending ?s1)"
      using Cons.prems by (simp_all add: s1)
    from Cons.IH[OF this] r True show ?thesis
      by (simp add: Let_def s1)
  next
    case False
    from key_filter_empty[OF False] have
      e: "filter (\<lambda>r. symbol r = symb \<and> timestamp r = timestamp x) ?R = []" .
    let ?s2 = "?s1\<lparr>pending := pending ?s1 @ [OHLCVRecord_of symb x]\<rparr>"
    have "autoflush ?s2" "no_duplicate_keys (rows ?s2 @ pending ?s2)"
      using Cons.prems False by (simp_all add: s1 no_duplicate_keys_def)
    from Cons.IH[OF this] e False show ?thesis
      by (simp add: Let_def s1)
  qed
qed

text \<open>
With autoflush off, the table stays as it is until the commit.
\<close>

lemma save_loop_not_flushing:
  assumes "\<not> autoflush s" "no_duplicate_keys (rows s)"
  shows "save_loop symb data s =
           (Inr (), s\<lparr>pending := pending s @ map (OHLCVRecord_of symb)
               (filter (\<lambda>x. (symb, timestamp x) \<notin> set (map key_of (rows s))) data)\<rparr>)"
  using assms
proof (induction data arbitrary: s)
  case Nil then show ?case by simp
next
  case (Cons x data)
  have s1: "before_select s = s" using Cons.prems by (simp add: before_select_def)
  show ?case
  proof (cases "(symb, timestamp x) \<in> set (map key_of (rows s))")
    case True
    from key_filter_single[OF Cons.prems(2) True] obtain r where
      r: "filter (\<lambda>r. symbol r = symb \<and> timestamp r = timestamp x) (rows s) = [r]" by blast
    from Cons.IH[OF Cons.prems] r True show ?thesis
      by (simp add: Let_def s1)
  next
    case False
    from key_filter_empty[OF False] have
      e: "filter (\<lambda>r. symbol r = symb \<and> timestamp r = timestamp x) (rows s) = []" .
    let ?s2 = "s\<lparr>pending := pending s @ [OHLCVRecord_of symb x]\<rparr>"
    have "\<not> autoflush ?s2" "no_duplicate_keys (rows ?s2)"
      using Cons.prems by simp_all
    from Cons.IH[OF this] e False show ?thesis
      by (simp add: Let_def s1)
  qed
qed

text \<open>
  On a session with nothing pending and a table without duplicate keys the save succeeds,
  and the table it leaves is \<open>saved_rows\<close>.
\<close>

lemma save_ohlcv_data_result:
  assumes "pending s = []" "no_duplicate_keys (rows s)"
  shows "save_ohlcv_data symb data s =
           (Inr (), s\<lparr>rows := saved_rows (autoflush s) symb data (rows s), pending := []\<rparr>)"
proof (cases "autoflush s")
  case True
  from save_loop_flushing[OF True, of symb data] assms
  have "fst (save_loop symb data s) = Inr ()"
    "flush (snd (save_loop symb data s)) = s\<lparr>rows := upsert_many symb data (rows s), pending := []\<rparr>"
    by simp_all
  then show ?thesis using True
    by (cases "save_loop symb data s") (simp add: save_ohlcv_data_def commit_def saved_rows_def)
next
  case False
  from save_loop_not_flushing[OF False assms(2), of symb data] assms(1) False
  show ?thesis
    by (simp add: save_ohlcv_data_def commit_def flush_def saved_rows_def append_absent_def)
qed

text \<open>
Properties of \<open>upsert_many\<close> and of the rows a save leaves.
\<close>

lemma upsert_many_keys:
  "set (map key_of (upsert_many symb data table)) =
     set (map key_of table) \<union> (\<lambda>x. (symb, timestamp x)) ` set data"
  by (induction data arbitrary: table) auto

lemma upsert_many_no_duplicates:
  "no_duplicate_keys table \<Longrightarrow> no_duplicate_keys (upsert_many symb data table)"
  by (induction data arbitrary: table) (auto simp: no_duplicate_keys_def)

lemma upsert_many_present:
  "(\<lambda>x. (symb, timestamp x)) ` set data \<subseteq> set (map key_of table) \<Longrightarrow> upsert_many symb data table = table"
  by (induction data arbitrary: table) auto

lemma upsert_many_idem:
  "upsert_many symb data (upsert_many symb data table) = upsert_many symb data table"
  by (rule upsert_many_present) (simp only: upsert_many_keys, blast)


lemma upsert_many_distinct:
  "distinct (map timestamp data) \<Longrightarrow> upsert_many symb data table = append_absent symb data table"
proof (induction data arbitrary: table)
  case Nil then show ?case by (simp add: append_absent_def)
next
  case (Cons x data)
  then have d: "distinct (map timestamp data)" and nx: "timestamp x \<notin> timestamp ` set data" by auto
  show ?case
  proof (cases "(symb, timestamp x) \<in> set (map key_of table)")
    case True
    with Cons.IH[OF d, of table] show ?thesis by (simp add: append_absent_def)
  next
    case False
    have "filter (\<lambda>y. (symb, timestamp y) \<notin> set (map key_of (table @ [OHLCVRecord_of symb x]))) data
        = filter (\<lambda>y. (symb, timestamp y) \<notin> set (map key_of table)) data"
      using nx by (intro filter_cong) (auto simp: image_iff)
    with Cons.IH[OF d, of "table @ [OHLCVRecord_of symb x]"] False show ?thesis
      by (simp add: append_absent_def)
  qed
qed

lemma saved_rows_upsert:
  "flushing \<or> distinct (map timestamp data) \<Longrightarrow> saved_rows flushing symb data table = upsert_many symb data table"
  by (auto simp: saved_rows_def upsert_many_distinct)






text \<open>
  With autoflush off, two fetched quotes with one timestamp are both inserted: the second
  select does not see the first insert. This is why the property of the repeated save below
  asks for autoflush or for distinct timestamps.
\<close>

lemma autoflush_off_same_timestamp_twice:
  "save_ohlcv_data ''AAPL'' [quote 1 9 10 8 9, quote 1 9 10 8 9] (empty_state\<lparr>autoflush := False\<rparr>) =
     (Inr (), empty_state\<lparr>autoflush := False,
        rows := [OHLCVRecord_of ''AAPL'' (quote 1 9 10 8 9), OHLCVRecord_of ''AAPL'' (quote 1 9 10 8 9)]\<rparr>)"
  by (simp add: save_ohlcv_data_def Let_def before_select_def commit_def flush_def empty_state_def)

section \<open>Properties of the orchestration\<close>

lemma ohlcv_to_dataframe_id: "ohlcv_to_dataframe xs = xs"
  by (induction xs) (simp_all add: ohlcv_to_dataframe_def)

lemma records_to_dataframe_timestamps:
  "map timestamp (records_to_dataframe rs) = map timestamp rs"
  by (simp add: records_to_dataframe_def)

lemma filter_range_in_range:
  "\<forall>row\<in>set df. in_range a b (timestamp row) \<Longrightarrow> filter_range a b df = df"
  by (simp add: filter_range_def in_range_def)

lemma filter_range_conv:
  "filter_range a b df = filter (\<lambda>row. in_range a b (timestamp row)) df"
  by (simp add: filter_range_def in_range_def)

lemma before_select_stored: "stored (before_select s) = stored s"
  by (simp add: before_select_def flush_def stored_def)

lemma get_cached_data_props:
  assumes "get_cached_data symb a b s = (cached, s1)"
  shows "sorted (map timestamp cached)"
    and "\<forall>r\<in>set cached. symbol r = symb \<and> in_range a b (timestamp r)"
    and "requests s1 = requests s"
    and "range_queries s1 = Suc (range_queries s)"
    and "stored s1 = stored s"
    and "autoflush s1 = autoflush s"
  using assms
  by (auto simp: get_cached_data_def Let_def before_select_def flush_def stored_def split: if_splits)




text \<open>
  The cache-miss path, unfolded: what \<^verbatim>\<open>get_ohlcv_data\<close> does when the range select
  returns no row.
\<close>

lemma cache_miss_unfold:
  assumes "date_or_default env start_date datetime_2000_1_1 = Inr start_dt"
    and "date_or_default env end_date (now env) = Inr end_dt"
    and "fst (get_cached_data symb start_dt end_dt s) = []"
  shows "get_ohlcv_data env symb start_date end_date s =
     (let s2 = (snd (get_cached_data symb start_dt end_dt s))\<lparr>requests := requests s @ [(symb, ''compact'')]\<rparr> in
      case fst (fetch_daily env symb ''compact'' s) of
        Inl e \<Rightarrow> (Inl e, s2)
      | Inr ohlcv_data \<Rightarrow>
          if ohlcv_data = [] then (Inl (ValueError (No_data_returned symb)), s2)
          else (case save_ohlcv_data symb ohlcv_data s2 of
                  (Inl e, s3) \<Rightarrow> (Inl e, s3)
                | (Inr u, s3) \<Rightarrow> (Inr (filter (\<lambda>row. in_range start_dt end_dt (timestamp row)) ohlcv_data), s3)))"
proof -
  obtain cached s1 where c: "get_cached_data symb start_dt end_dt s = (cached, s1)"
    by (cases "get_cached_data symb start_dt end_dt s")
  with assms(3) have e: "cached = []" by simp
  note p = get_cached_data_props[OF c]
  have f: "fetch_daily env symb ''compact'' s1 =
     (fst (fetch_daily env symb ''compact'' s), s1\<lparr>requests := requests s @ [(symb, ''compact'')]\<rparr>)"
    using fetch_daily_conv[of env symb "''compact''" s1 s] p(3) by simp
  show ?thesis
    using assms(1,2) c e f
    by (simp add: get_ohlcv_data_def Let_def ohlcv_to_dataframe_id filter_range_conv
        split: sum.splits prod.splits)
qed



text \<open>
  The route \<^verbatim>\<open>refresh_data\<close> called twice with the same upstream response: the second
  call reports the same count and leaves the table as the first call left it.
\<close>

lemma refresh_twice:
  assumes "pending s = []" and "no_duplicate_keys (rows s)" and "autoflush s"
    and "refresh_data env symb s = (Inr n, s1)"
  shows "\<exists>s2. refresh_data env symb s1 = (Inr n, s2) \<and> rows s2 = rows s1 \<and>
          no_duplicate_keys (rows s1) \<and> no_duplicate_keys (rows s2)"
proof -
  obtain r where f: "fetch_daily env symb ''compact'' s = (r, s\<lparr>requests := requests s @ [(symb, ''compact'')]\<rparr>)"
    using fetch_daily_conv[of env symb "''compact''" s s] by simp
  let ?sa = "s\<lparr>requests := requests s @ [(symb, ''compact'')]\<rparr>"
  from assms(4) f obtain fetched where r: "r = Inr fetched" and ne: "fetched \<noteq> []"
    by (cases r) (auto simp: refresh_data_def split: if_splits)
  have "pending ?sa = []" "no_duplicate_keys (rows ?sa)" using assms by simp_all
  note sv = save_ohlcv_data_result[OF this, of symb fetched]
  have up: "saved_rows (autoflush s) symb fetched (rows s) = upsert_many symb fetched (rows s)"
    using assms(3) by (simp add: saved_rows_def)
  from assms(4) f r ne sv up have s1: "s1 = ?sa\<lparr>rows := upsert_many symb fetched (rows s), pending := []\<rparr>"
    and n: "n = length fetched"
    by (simp_all add: refresh_data_def)
  have nd1: "no_duplicate_keys (rows s1)" using upsert_many_no_duplicates[OF assms(2)] s1 by simp
  have p1: "pending s1 = []" using s1 by simp
  have f1: "fetch_daily env symb ''compact'' s1 = (Inr fetched, s1\<lparr>requests := requests s1 @ [(symb, ''compact'')]\<rparr>)"
    using fetch_daily_conv[of env symb "''compact''" s1 s] f r by simp
  let ?sb = "s1\<lparr>requests := requests s1 @ [(symb, ''compact'')]\<rparr>"
  have "pending ?sb = []" "no_duplicate_keys (rows ?sb)" using nd1 p1 by simp_all
  note sv2 = save_ohlcv_data_result[OF this, of symb fetched]
  have "saved_rows (autoflush ?sb) symb fetched (rows ?sb) = rows s1"
    using assms(3) s1 by (simp add: saved_rows_def upsert_many_idem)
  with sv2 f1 ne n nd1 show ?thesis
    by (simp add: refresh_data_def)
qed

section \<open>The sample provider evaluated\<close>

lemmas sample_defs = sample_env_def sample_dates_def sample_body_def sample_series_def
  sample_entry_def sample_fields_def sample_state_def empty_state_def quote_def days_def malformed_body_def
  note_body_def date_or_default_def datetime_2000_1_1_def


lemma empty_state_misses: "fst (get_cached_data symb a b empty_state) = []"
  by (simp add: get_cached_data_def before_select_def flush_def empty_state_def)


lemma sample_state_fresh: "pending sample_state = [] \<and> no_duplicate_keys (rows sample_state) \<and> autoflush sample_state"
  by (simp add: sample_state_def no_duplicate_keys_def key_of_def OHLCVRecord_of_def quote_def days_def)



section \<open>The claims\<close>

text \<open>
  Claim C1. When the range select of \<^verbatim>\<open>get_ohlcv_data\<close> returns at least one row, the
  call returns exactly these rows as a frame: all of them lie in the range, they are
  ascending by timestamp, and the log of provider requests is as it was before the call, so
  the provider was not called. The hypotheses say that the two dates parse (or are
  defaulted) and that the select returns \<open>cached\<close>, which is not empty.
\<close>

theorem cache_hit_returns_cached_rows:
  assumes "date_or_default env start_date datetime_2000_1_1 = Inr start_dt"
    and "date_or_default env end_date (now env) = Inr end_dt"
    and "get_cached_data symb start_dt end_dt s = (cached, s1)"
    and "cached \<noteq> []"
  shows "get_ohlcv_data env symb start_date end_date s = (Inr (records_to_dataframe cached), s1) \<and>
         (\<forall>row\<in>set (records_to_dataframe cached). in_range start_dt end_dt (timestamp row)) \<and>
         sorted (map timestamp (records_to_dataframe cached)) \<and>
         requests s1 = requests s"
proof -
  note p = get_cached_data_props[OF assms(3)]
  have inr: "\<forall>row\<in>set (records_to_dataframe cached). in_range start_dt end_dt (timestamp row)"
    using p(2) by (auto simp: records_to_dataframe_def)
  have "get_ohlcv_data env symb start_date end_date s = (Inr (records_to_dataframe cached), s1)"
    using assms by (simp add: get_ohlcv_data_def filter_range_in_range[OF inr])
  with inr p(1) p(3) show ?thesis by (simp add: records_to_dataframe_timestamps)
qed

text \<open>
  The instance: the table holds 2024-01-02 to 2024-01-04 for AAPL and the request is for
  2024-01-03 alone.
\<close>

theorem cache_hit_returns_cached_rows_witness:
  "date_or_default (sample_env sample_body) (Some ''2024-01-03'') datetime_2000_1_1 = Inr (days 8768) \<and>
   date_or_default (sample_env sample_body) (Some ''2024-01-03'') (now (sample_env sample_body)) = Inr (days 8768) \<and>
   get_cached_data ''AAPL'' (days 8768) (days 8768) sample_state =
     ([OHLCVRecord_of ''AAPL'' (quote (days 8768) 9 10 8 10)], sample_state\<lparr>range_queries := 1\<rparr>) \<and>
   get_ohlcv_data (sample_env sample_body) ''AAPL'' (Some ''2024-01-03'') (Some ''2024-01-03'') sample_state =
     (Inr [quote (days 8768) 9 10 8 10], sample_state\<lparr>range_queries := 1\<rparr>) \<and>
   requests (sample_state\<lparr>range_queries := 1\<rparr>) = requests sample_state"
proof -
  have h1: "date_or_default (sample_env sample_body) (Some ''2024-01-03'') datetime_2000_1_1 = Inr (days 8768)"
    by (simp add: sample_defs)
  have h2: "date_or_default (sample_env sample_body) (Some ''2024-01-03'') (now (sample_env sample_body)) = Inr (days 8768)"
    by (simp add: sample_defs)
  have h3: "get_cached_data ''AAPL'' (days 8768) (days 8768) sample_state =
     ([OHLCVRecord_of ''AAPL'' (quote (days 8768) 9 10 8 10)], sample_state\<lparr>range_queries := 1\<rparr>)"
    by (simp add: get_cached_data_def before_select_def flush_def in_range_def sample_defs OHLCVRecord_of_def)
  have h4: "[OHLCVRecord_of ''AAPL'' (quote (days 8768) 9 10 8 10)] \<noteq> []" by simp
  from cache_hit_returns_cached_rows[OF h1 h2 h3 h4] h1 h2 h3 show ?thesis
    by (simp add: records_to_dataframe_def OHLCVRecord_of_def quote_def)
qed









text \<open>
  Claim C5. On the cache-miss path, when the fetch returns the empty list (a time series
  was there and every entry of it was skipped), \<^verbatim>\<open>get_ohlcv_data\<close> fails with the
  \<^verbatim>\<open>ValueError\<close> "No data returned from Alpha Vantage for ..." and returns no frame; the
  records the session holds are as they were.
\<close>

theorem empty_fetch_is_an_error:
  assumes "date_or_default env start_date datetime_2000_1_1 = Inr start_dt"
    and "date_or_default env end_date (now env) = Inr end_dt"
    and "fst (get_cached_data symb start_dt end_dt s) = []"
    and "fst (fetch_daily env symb ''compact'' s) = Inr []"
  shows "fst (get_ohlcv_data env symb start_date end_date s) = Inl (ValueError (No_data_returned symb)) \<and>
         stored (snd (get_ohlcv_data env symb start_date end_date s)) = stored s"
proof -
  obtain cached s1 where c: "get_cached_data symb start_dt end_dt s = (cached, s1)"
    by (cases "get_cached_data symb start_dt end_dt s")
  note p = get_cached_data_props[OF c]
  show ?thesis
    using cache_miss_unfold[OF assms(1-3)] assms(4) c p(5)
    by (simp add: Let_def stored_def)
qed

text \<open>
  The instance: a provider whose only entry has a high that is no number.
\<close>

theorem empty_fetch_is_an_error_witness:
  "date_or_default (sample_env malformed_body) None datetime_2000_1_1 = Inr 0 \<and>
   date_or_default (sample_env malformed_body) None (now (sample_env malformed_body)) = Inr (days 9000) \<and>
   fst (get_cached_data ''AAPL'' 0 (days 9000) empty_state) = [] \<and>
   fst (fetch_daily (sample_env malformed_body) ''AAPL'' ''compact'' empty_state) = Inr [] \<and>
   fst (get_ohlcv_data (sample_env malformed_body) ''AAPL'' None None empty_state) =
     Inl (ValueError (No_data_returned ''AAPL'')) \<and>
   stored (snd (get_ohlcv_data (sample_env malformed_body) ''AAPL'' None None empty_state)) = []"
proof -
  have h1: "date_or_default (sample_env malformed_body) None datetime_2000_1_1 = Inr 0"
    by (simp add: sample_defs)
  have h2: "date_or_default (sample_env malformed_body) None (now (sample_env malformed_body)) = Inr (days 9000)"
    by (simp add: sample_defs)
  note h3 = empty_state_misses[of "''AAPL''" 0 "days 9000"]
  have h4: "fst (fetch_daily (sample_env malformed_body) ''AAPL'' ''compact'' empty_state) = Inr []"
    by (simp add: fetch_daily_def Let_def sample_defs has_key_def OHLCVData_of_entry_def float_field_def)
  have st: "stored empty_state = []" by (simp add: stored_def empty_state_def)
  from empty_fetch_is_an_error[OF h1 h2 h3 h4] h1 h2 h3 h4 st show ?thesis by simp
qed

text \<open>
  Claim C6. Saving the same fetched list twice: on a fresh session whose table has no
  duplicate keys, with autoflush on or with fetched timestamps that are distinct, the first
  save succeeds and leaves the table \<open>upsert_many\<close> describes (a row is inserted only when
  no row has its key), the table has no duplicate keys, and the second save succeeds and
  leaves the state exactly as the first left it.
\<close>

theorem saving_twice_leaves_no_duplicate_keys:
  assumes "pending s = []" and "no_duplicate_keys (rows s)"
    and "autoflush s \<or> distinct (map timestamp data)"
  shows "\<exists>s1. save_ohlcv_data symb data s = (Inr (), s1) \<and>
              save_ohlcv_data symb data s1 = (Inr (), s1) \<and>
              rows s1 = upsert_many symb data (rows s) \<and>
              no_duplicate_keys (rows s1)"
proof -
  let ?s1 = "s\<lparr>rows := upsert_many symb data (rows s), pending := []\<rparr>"
  have first: "save_ohlcv_data symb data s = (Inr (), ?s1)"
    using save_ohlcv_data_result[OF assms(1,2), of symb data] saved_rows_upsert[OF assms(3), of symb "rows s"]
    by simp
  have nd: "no_duplicate_keys (rows ?s1)"
    using upsert_many_no_duplicates[OF assms(2)] by simp
  have "pending ?s1 = []" by simp
  from save_ohlcv_data_result[OF this nd, of symb data]
  have "save_ohlcv_data symb data ?s1 =
          (Inr (), ?s1\<lparr>rows := upsert_many symb data (upsert_many symb data (rows s)), pending := []\<rparr>)"
    using saved_rows_upsert[OF assms(3), of symb "upsert_many symb data (rows s)"] by simp
  then have second: "save_ohlcv_data symb data ?s1 = (Inr (), ?s1)"
    by (simp add: upsert_many_idem)
  from first second nd show ?thesis by simp
qed

text \<open>
  The instance: the table holds three days of AAPL; of the two quotes saved one is new.
\<close>

theorem saving_twice_leaves_no_duplicate_keys_witness:
  "pending sample_state = [] \<and> no_duplicate_keys (rows sample_state) \<and> autoflush sample_state \<and>
   (\<exists>s1. save_ohlcv_data ''AAPL'' [quote (days 8769) 9 10 8 9, quote (days 8770) 9 10 8 9] sample_state = (Inr (), s1) \<and>
         save_ohlcv_data ''AAPL'' [quote (days 8769) 9 10 8 9, quote (days 8770) 9 10 8 9] s1 = (Inr (), s1) \<and>
         rows s1 = rows sample_state @ [OHLCVRecord_of ''AAPL'' (quote (days 8770) 9 10 8 9)] \<and>
         no_duplicate_keys (rows s1))"
proof -
  have d: "autoflush sample_state \<or> distinct (map timestamp [quote (days 8769) 9 10 8 9, quote (days 8770) 9 10 8 9])"
    using sample_state_fresh by simp
  have u: "upsert_many ''AAPL'' [quote (days 8769) 9 10 8 9, quote (days 8770) 9 10 8 9] (rows sample_state) =
           rows sample_state @ [OHLCVRecord_of ''AAPL'' (quote (days 8770) 9 10 8 9)]"
    by (simp add: sample_state_def key_of_def OHLCVRecord_of_def quote_def days_def)
  from saving_twice_leaves_no_duplicate_keys[OF _ _ d, of "''AAPL''"] sample_state_fresh u show ?thesis by simp
qed



text \<open>
  Claim C8. On the cache-miss path \<^verbatim>\<open>get_ohlcv_data\<close> fails with the rate-limit error
  exactly when the provider's response is a rate-limit indicator: no other failure of the
  call has this value. The error is the one \<^verbatim>\<open>fetch_daily\<close> raised, unchanged, and the
  records the session holds are as they were.
\<close>

theorem rate_limit_error_propagates:
  assumes "date_or_default env start_date datetime_2000_1_1 = Inr start_dt"
    and "date_or_default env end_date (now env) = Inr end_dt"
    and "fst (get_cached_data symb start_dt end_dt s) = []"
  shows "(fst (get_ohlcv_data env symb start_date end_date s) = Inl (ValueError API_rate_limit_exceeded)) =
           rate_limited (http_get env symb ''compact'') \<and>
         (rate_limited (http_get env symb ''compact'') \<longrightarrow>
            fst (get_ohlcv_data env symb start_date end_date s) = fst (fetch_daily env symb ''compact'' s) \<and>
            stored (snd (get_ohlcv_data env symb start_date end_date s)) = stored s)"
proof -
  obtain cached s1 where c: "get_cached_data symb start_dt end_dt s = (cached, s1)"
    by (cases "get_cached_data symb start_dt end_dt s")
  note p = get_cached_data_props[OF c]
  note u = cache_miss_unfold[OF assms]
  let ?s2 = "s1\<lparr>requests := requests s @ [(symb, ''compact'')]\<rparr>"
  show ?thesis
  proof (cases "fst (fetch_daily env symb ''compact'' s)")
    case (Inl e)
    then have "get_ohlcv_data env symb start_date end_date s = (Inl e, ?s2)"
      using u c by (simp add: Let_def)
    then show ?thesis using Inl fetch_daily_rate_limit[of env symb "''compact''" s] p(5)
      by (simp add: stored_def)
  next
    case (Inr fetched)
    then have nl: "\<not> rate_limited (http_get env symb ''compact'')"
      using fetch_daily_rate_limit[of env symb "''compact''" s] by simp
    have "fst (get_ohlcv_data env symb start_date end_date s) \<noteq> Inl (ValueError API_rate_limit_exceeded)"
    proof (cases "fetched = []")
      case True
      then show ?thesis using u Inr by (simp add: Let_def)
    next
      case False
      obtain r s3 where sv: "save_ohlcv_data symb fetched ?s2 = (r, s3)"
        by (cases "save_ohlcv_data symb fetched ?s2")
      show ?thesis
      proof (cases r)
        case (Inl e)
        with sv save_ohlcv_data_errors[of symb fetched ?s2 e] have "e = MultipleResultsFound" by simp
        then show ?thesis using u c Inr False sv Inl by (simp add: Let_def)
      next
        case (Inr u')
        then show ?thesis using u c \<open>fst (fetch_daily env symb ''compact'' s) = Inr fetched\<close> False sv
          by (simp add: Let_def)
      qed
    qed
    with nl show ?thesis by simp
  qed
qed

text \<open>
  The instance: a provider that answers with a note alone, and an empty table.
\<close>

theorem rate_limit_error_propagates_witness:
  "date_or_default (sample_env note_body) None datetime_2000_1_1 = Inr 0 \<and>
   date_or_default (sample_env note_body) None (now (sample_env note_body)) = Inr (days 9000) \<and>
   fst (get_cached_data ''AAPL'' 0 (days 9000) empty_state) = [] \<and>
   rate_limited (http_get (sample_env note_body) ''AAPL'' ''compact'') \<and>
   get_ohlcv_data (sample_env note_body) ''AAPL'' None None empty_state =
     (Inl (ValueError API_rate_limit_exceeded),
      empty_state\<lparr>requests := [(''AAPL'', ''compact'')], range_queries := 1\<rparr>)"
proof -
  have h1: "date_or_default (sample_env note_body) None datetime_2000_1_1 = Inr 0"
    by (simp add: sample_defs)
  have h2: "date_or_default (sample_env note_body) None (now (sample_env note_body)) = Inr (days 9000)"
    by (simp add: sample_defs)
  note h3 = empty_state_misses[of "''AAPL''" 0 "days 9000"]
  have rl: "rate_limited (http_get (sample_env note_body) ''AAPL'' ''compact'')"
    by (simp add: sample_env_def note_body_def has_key_def)
  have sn: "snd (get_ohlcv_data (sample_env note_body) ''AAPL'' None None empty_state) =
      empty_state\<lparr>requests := [(''AAPL'', ''compact'')], range_queries := 1\<rparr>"
    using cache_miss_unfold[OF h1 h2 h3] rl fetch_daily_rate_limit[of "sample_env note_body" "''AAPL''" "''compact''" empty_state]
    by (simp add: Let_def get_cached_data_def before_select_def flush_def empty_state_def)
  from rate_limit_error_propagates[OF h1 h2 h3] h1 h2 h3 rl sn show ?thesis
    by (cases "get_ohlcv_data (sample_env note_body) ''AAPL'' None None empty_state") simp
qed






end
